theory Spec2Isabelle
  imports Main
begin

section \<open>SaveVideo: data model\<close>

text \<open>
  The module \<^verbatim>\<open>SaveVideo\<close> (src/Modules/SaveVideo/SaveVideo.C) has two sides: the
  acquisition and command side (\<^verbatim>\<open>process\<close>, \<^verbatim>\<open>parseSerial\<close>, \<^verbatim>\<open>postInit\<close>,
  \<^verbatim>\<open>postUninit\<close>) and one writer thread (\<^verbatim>\<open>run\<close>). They share the image queue
  \<^verbatim>\<open>itsBuf\<close> and two atomic flags. The model is an interleaving semantics: a record of
  the module's members, of the writer thread's locals and of the outside world (disk,
  encoder, serial port, log), and one function per atomic action of either side.
\<close>

subsection \<open>Images\<close>

text \<open>
  A \<^verbatim>\<open>cv::Mat\<close> by its dimensions and its pixel data. \<^verbatim>\<open>cv::Mat()\<close> is the matrix with
  no rows and no columns, and \<^verbatim>\<open>empty()\<close> holds of a matrix with no element.
\<close>

record mat =
  rows :: nat
  cols :: nat
  data :: "nat list"

definition cv_Mat :: mat where
  "cv_Mat = \<lparr>rows = 0, cols = 0, data = []\<rparr>"

definition empty :: "mat \<Rightarrow> bool" where
  "empty im = (rows im = 0 \<or> cols im = 0)"

datatype pixfmt = V4L2_PIX_FMT_YUYV | V4L2_PIX_FMT_OTHER nat

record rawimage =
  width :: nat
  height :: nat
  fmt :: pixfmt
  pixels :: "nat list"

text \<open>What \<^verbatim>\<open>outframe.send()\<close> puts on the USB link: the pasted input image and the two
  text lines written over it.\<close>

record usbframe =
  img :: rawimage
  overlay :: string
  caption :: string

subsection \<open>Messages and errors\<close>

datatype serialmsg = SAVESTART | SAVESTOP | SAVETO string | SAVEDNUM int

datatype logmsg =
    LERROR_dropping_frame
  | LERROR_mkdir string
  | LERROR_sync
  | LINFO_waiting nat
  | LINFO_completed
  | LINFO_saved string

datatype error =
    Unsupported_module_command
  | Require_failed string
  | Empty_filename
  | Open_failed string

subsection \<open>The writer thread's position\<close>

text \<open>
  \<open>W_NotStarted\<close>: before \<^verbatim>\<open>postInit\<close>; \<open>W_Loop\<close>: at the test of the outer loop (line 230);
  \<open>W_Pop\<close>: at \<^verbatim>\<open>itsBuf.pop()\<close> (line 240); \<open>W_Close\<close>: after the \<^verbatim>\<open>break\<close> of line 243,
  before line 286; \<open>W_Exited\<close>: \<^verbatim>\<open>run\<close> has returned; \<open>W_Fatal e\<close>: \<^verbatim>\<open>LFATAL\<close> has thrown
  \<open>e\<close> out of \<^verbatim>\<open>run\<close>; \<open>W_Undefined\<close>: a signed \<^verbatim>\<open>int\<close> was incremented at its largest
  value, which C++ leaves undefined, so the model says nothing from there on.
\<close>

datatype wpc = W_NotStarted | W_Loop | W_Pop | W_Close | W_Exited | W_Fatal error | W_Undefined

text \<open>The caller of the module's public functions: between calls, inside the wait loop of
  \<^verbatim>\<open>stop\<close> (line 206), inside \<^verbatim>\<open>postUninit\<close> waiting for the writer thread (line 122), or
  after \<^verbatim>\<open>postUninit\<close>.\<close>

datatype cpc = C_New | C_Idle | C_Stop | C_Uninit | C_Done

subsection \<open>State\<close>

record state =
  itsBuf :: "mat list"
  itsSaving :: bool
  itsFileNum :: int
  itsRunning :: bool
  itsFilename :: string
  filename :: string
  fourcc :: string
  wpc :: wpc
  writer :: "string option"
  frame :: int
  cpc :: cpc
  disk :: "string set"
  encoded :: "(string \<times> mat) list"
  serial :: "serialmsg list"
  logs :: "logmsg list"
  usb :: "usbframe list"
  thrown :: "error list"
  accepted :: "mat list"

text \<open>
  \<open>itsBuf\<close> to \<open>itsFilename\<close> are the members of the class; \<open>filename\<close> and \<open>fourcc\<close> are its
  parameters; \<open>wpc\<close>, \<open>writer\<close> (the path of the open \<^verbatim>\<open>cv::VideoWriter\<close>, if it is open) and
  \<open>frame\<close> are the position and the locals of \<^verbatim>\<open>run\<close>; \<open>cpc\<close> is the position of the caller.
  \<open>disk\<close> is the set of paths that \<^verbatim>\<open>std::ifstream\<close> can open, \<open>encoded\<close> the frames given
  to the encoder so far with the file they went to, \<open>serial\<close>, \<open>logs\<close> and \<open>usb\<close> what was
  sent, and \<open>thrown\<close> the exceptions thrown to the caller. \<open>accepted\<close> is a history
  variable: the images that \<^verbatim>\<open>process\<close> pushed, in order.
\<close>

text \<open>The parts of the outside world that the code calls: \<^verbatim>\<open>snprintf\<close> on the file name
  template, \<^verbatim>\<open>cv::VideoWriter::open\<close> (whether it succeeds for a path, a codec and a first
  frame), \<^verbatim>\<open>jevois::rawimage::convertToCvBGR\<close> and the exit status of \<^verbatim>\<open>std::system\<close>.
  The conversion is taken to return an image for every input, and a written frame to
  be accepted by an open encoder. The frame rate, a floating point number, is left out.\<close>

record env =
  snprintf :: "string \<Rightarrow> int \<Rightarrow> string"
  writer_open :: "string \<Rightarrow> string \<Rightarrow> mat \<Rightarrow> bool"
  convertToCvBGR :: "rawimage \<Rightarrow> mat"
  system :: "string \<Rightarrow> int"

definition INT_MAX :: int where
  "INT_MAX = 2147483647"

definition PATHPREFIX :: string where
  "PATHPREFIX = ''/jevois/data/savevideo/''"

text \<open>The constructor (line 94) and the default values of the parameters (lines 41 to 52),
  on a disk that holds the files \<open>d\<close>.\<close>

definition SaveVideo :: "string set \<Rightarrow> state" where
  "SaveVideo d =
     \<lparr>itsBuf = [], itsSaving = False, itsFileNum = 0, itsRunning = False, itsFilename = [],
      filename = ''video%06d.avi'', fourcc = ''MJPG'',
      wpc = W_NotStarted, writer = None, frame = 0, cpc = C_New,
      disk = d, encoded = [], serial = [], logs = [], usb = [], thrown = [], accepted = []\<rparr>"

section \<open>The image queue\<close>

text \<open>
  Modelled from the spec: \<^verbatim>\<open>jevois::BoundedBuffer\<close> (jevois/Types/BoundedBuffer.H) is not
  part of the sources. The specification (section 4.1) gives its contract: \<open>push\<close> inserts
  at the tail and does not hard-block producers, \<open>pop\<close> removes and returns the head and
  blocks while the queue is empty, \<open>filled_size\<close> is the number of queued items. A blocked
  \<open>pop\<close> is the value \<open>None\<close>.
\<close>

definition push :: "mat \<Rightarrow> mat list \<Rightarrow> mat list" where
  "push im q = q @ [im]"

definition pop :: "mat list \<Rightarrow> (mat \<times> mat list) option" where
  "pop q = (case q of [] \<Rightarrow> None | im # q' \<Rightarrow> Some (im, q'))"

definition filled_size :: "mat list \<Rightarrow> nat" where
  "filled_size q = length q"

section \<open>The acquisition side\<close>

text \<open>Lines 143 to 148, and again 176 to 181: the block guarded by \<^verbatim>\<open>itsSaving.load()\<close>.\<close>

definition enqueue :: "env \<Rightarrow> rawimage \<Rightarrow> state \<Rightarrow> state" where
  "enqueue E inimg s =
     (if itsSaving s then
        (if filled_size (itsBuf s) > 1000 then s\<lparr>logs := logs s @ [LERROR_dropping_frame]\<rparr>
         else s\<lparr>itsBuf := push (convertToCvBGR E inimg) (itsBuf s),
                accepted := accepted s @ [convertToCvBGR E inimg]\<rparr>)
      else s)"

text \<open>\<^verbatim>\<open>process(inframe)\<close>, the version with no video output (lines 171 to 185).\<close>

definition process :: "env \<Rightarrow> rawimage \<Rightarrow> state \<Rightarrow> state" where
  "process E inimg s = enqueue E inimg s"

text \<open>
  \<^verbatim>\<open>process(inframe, outframe)\<close> (lines 137 to 166). \<^verbatim>\<open>require\<close> throws when the image has
  not the asked size and format; the input is required to have its own size, so only its
  format can fail.
\<close>

definition process_out :: "env \<Rightarrow> rawimage \<Rightarrow> rawimage \<Rightarrow> state \<Rightarrow> state" where
  "process_out E inimg outimg s =
     (if fmt inimg \<noteq> V4L2_PIX_FMT_YUYV
      then s\<lparr>thrown := thrown s @ [Require_failed ''input'']\<rparr>
      else
        let s1 = enqueue E inimg s in
        if \<not> (width outimg = width inimg \<and> height outimg = height inimg
                \<and> fmt outimg = V4L2_PIX_FMT_YUYV)
        then s1\<lparr>thrown := thrown s1 @ [Require_failed ''output'']\<rparr>
        else s1\<lparr>usb := usb s1 @
               [\<lparr>img = outimg\<lparr>pixels := pixels inimg\<rparr>,
                 overlay = ''SaveVideo: '' @ (if itsSaving s1 then ''RECORDING'' else ''not recording''),
                 caption = itsFilename s1\<rparr>]\<rparr>)"

section \<open>The command side\<close>

text \<open>
  \<^verbatim>\<open>parseSerial\<close> (lines 190 to 216) up to the wait loop of \<^verbatim>\<open>stop\<close>: \<^verbatim>\<open>start\<close> returns
  at once, \<^verbatim>\<open>stop\<close> pushes the empty image and enters the loop of line 206, anything else
  throws.
\<close>

definition parseSerial :: "string \<Rightarrow> state \<Rightarrow> state" where
  "parseSerial str s =
     (if str = ''start'' then s\<lparr>itsSaving := True, serial := serial s @ [SAVESTART]\<rparr>
      else if str = ''stop'' then
        s\<lparr>itsSaving := False, serial := serial s @ [SAVESTOP],
          itsBuf := push cv_Mat (itsBuf s), cpc := C_Stop\<rparr>
      else s\<lparr>thrown := thrown s @ [Unsupported_module_command]\<rparr>)"

text \<open>
  One test of \<^verbatim>\<open>while (itsBuf.filled_size())\<close> (line 206): either one round of the loop
  (a message and a sleep), or the rest of \<^verbatim>\<open>stop\<close> (lines 211 to 213), after which
  \<^verbatim>\<open>parseSerial\<close> returns to its caller.
\<close>

definition stop_wait :: "env \<Rightarrow> state \<Rightarrow> state" where
  "stop_wait E s =
     (if filled_size (itsBuf s) \<noteq> 0
      then s\<lparr>logs := logs s @ [LINFO_waiting (filled_size (itsBuf s))]\<rparr>
      else
        let l = logs s @ [LINFO_completed];
            l' = (if system E ''/bin/sync'' \<noteq> 0 then l @ [LERROR_sync] else l)
        in s\<lparr>logs := l' @ [LINFO_saved (itsFilename s)], cpc := C_Idle\<rparr>)"

text \<open>\<^verbatim>\<open>postInit\<close> (lines 101 to 107) starts the writer thread.\<close>

definition postInit :: "state \<Rightarrow> state" where
  "postInit s = s\<lparr>itsRunning := True, wpc := W_Loop, cpc := C_Idle\<rparr>"

text \<open>\<^verbatim>\<open>postUninit\<close> (lines 112 to 126) up to \<^verbatim>\<open>itsRunFut.get()\<close>, and from there on once
  the writer thread has ended, by a return or by an exception, which is ignored.\<close>

definition postUninit :: "state \<Rightarrow> state" where
  "postUninit s =
     s\<lparr>itsRunning := False, itsBuf := push cv_Mat (itsBuf s),
       logs := logs s @ [LINFO_waiting (filled_size (push cv_Mat (itsBuf s)))],
       cpc := C_Uninit\<rparr>"

definition ended :: "wpc \<Rightarrow> bool" where
  "ended w = (case w of W_Exited \<Rightarrow> True | W_Fatal e \<Rightarrow> True | _ \<Rightarrow> False)"

definition join :: "env \<Rightarrow> state \<Rightarrow> state option" where
  "join E s =
     (if ended (wpc s) then
        let l = logs s @ [LINFO_completed];
            l' = (if system E ''/bin/sync'' \<noteq> 0 then l @ [LERROR_sync] else l)
        in Some (s\<lparr>logs := l' @ [LINFO_saved (itsFilename s)], cpc := C_Done\<rparr>)
      else None)"

section \<open>The writer thread\<close>

text \<open>
  The loop of lines 262 to 269, from the counter value \<open>n\<close>: the first name of the template
  \<open>fn\<close> that \<^verbatim>\<open>std::ifstream\<close> cannot open on the disk \<open>d\<close>, with the counter value that gave
  it. \<^verbatim>\<open>snprintf\<close> writes at most 2046 characters. The result is \<open>None\<close> when the loop
  reaches \<^verbatim>\<open>++itsFileNum\<close> at \<open>INT_MAX\<close>.
\<close>

function probe :: "env \<Rightarrow> string set \<Rightarrow> string \<Rightarrow> int \<Rightarrow> (string \<times> int) option" where
  "probe E d fn n =
     (let tmp = take 2046 (snprintf E fn n) in
      if tmp \<notin> d then Some (tmp, n)
      else if n < INT_MAX then probe E d fn (n + 1)
      else None)"
  by pat_completeness auto
termination
  by (relation "measure (\<lambda>(E, d, fn, n). nat (INT_MAX - n))") auto

declare probe.simps [simp del]

text \<open>\<^verbatim>\<open>fn.substr(0, fn.rfind('/'))\<close> (line 258); without a slash \<^verbatim>\<open>rfind\<close> gives \<^verbatim>\<open>npos\<close>
  and the whole string is taken.\<close>

definition dirname :: "string \<Rightarrow> string" where
  "dirname fn =
     (if CHR ''/'' \<in> set fn then rev (tl (dropWhile (\<lambda>c. c \<noteq> CHR ''/'') (rev fn))) else fn)"

text \<open>Line 255: \<^verbatim>\<open>PATHPREFIX\<close> goes before a file name that does not start with a slash.\<close>

definition absolute :: "string \<Rightarrow> string" where
  "absolute fn = (case fn of [] \<Rightarrow> [] | c # cs \<Rightarrow> if c \<noteq> CHR ''/'' then PATHPREFIX @ fn else fn)"

text \<open>
  Lines 248 to 275, run when the encoder is not open: the check on the file name, the
  directory, the search for a free name, and the opening of the encoder, which creates
  the file. \<^verbatim>\<open>LFATAL\<close> throws, and nothing in \<^verbatim>\<open>run\<close> catches it. Of \<^verbatim>\<open>mkdir\<close> only
  the exit status is kept: it makes directories, and \<open>disk\<close> holds the files.
\<close>

definition open_writer :: "env \<Rightarrow> mat \<Rightarrow> state \<Rightarrow> state" where
  "open_writer E im s =
     (if filename s = [] then s\<lparr>wpc := W_Fatal Empty_filename\<rparr>
      else
        let fn = absolute (filename s);
            cmd = ''/bin/mkdir -p '' @ dirname fn;
            s1 = (if system E cmd \<noteq> 0 then s\<lparr>logs := logs s @ [LERROR_mkdir cmd]\<rparr> else s)
        in (case probe E (disk s1) fn (itsFileNum s1) of
              None \<Rightarrow> s1\<lparr>wpc := W_Undefined\<rparr>
            | Some (tmp, n) \<Rightarrow>
                let s2 = s1\<lparr>itsFileNum := n, itsFilename := tmp\<rparr> in
                if \<not> writer_open E tmp (fourcc s2) im
                then s2\<lparr>wpc := W_Fatal (Open_failed tmp)\<rparr>
                else s2\<lparr>writer := Some tmp, disk := insert tmp (disk s2),
                        serial := serial s2 @ [SAVETO tmp]\<rparr>))"

text \<open>Lines 279 to 282: the frame goes to the encoder open on \<open>p\<close>, then the frame count
  is incremented and reported every 100 frames.\<close>

definition write_frame :: "string \<Rightarrow> mat \<Rightarrow> state \<Rightarrow> state" where
  "write_frame p im s =
     (let s1 = s\<lparr>encoded := encoded s @ [(p, im)]\<rparr> in
      if frame s1 < INT_MAX then
        (let s2 = s1\<lparr>frame := frame s1 + 1\<rparr> in
         if frame s2 mod 100 = 0 then s2\<lparr>serial := serial s2 @ [SAVEDNUM (frame s2)]\<rparr> else s2)
      else s1\<lparr>wpc := W_Undefined\<rparr>)"

text \<open>
  One atomic action of \<^verbatim>\<open>run\<close> (lines 228 to 288), by the position of the thread:
  \<^item> at the loop test: either a new \<^verbatim>\<open>cv::VideoWriter\<close> and frame count, or the return;
  \<^item> at \<^verbatim>\<open>pop\<close>: blocked on an empty queue; an empty image leaves the inner loop; any
    other image opens the encoder if needed and is written;
  \<^item> after the inner loop: \<^verbatim>\<open>++itsFileNum\<close>, then the \<^verbatim>\<open>cv::VideoWriter\<close> goes out of
    scope, which closes the file.
  \<open>None\<close> is a thread that cannot move.
\<close>

definition run_step :: "env \<Rightarrow> state \<Rightarrow> state option" where
  "run_step E s =
     (case wpc s of
        W_Loop \<Rightarrow>
          Some (if itsRunning s then s\<lparr>writer := None, frame := 0, wpc := W_Pop\<rparr>
                else s\<lparr>wpc := W_Exited\<rparr>)
      | W_Pop \<Rightarrow>
          (case pop (itsBuf s) of
             None \<Rightarrow> None
           | Some (im, q) \<Rightarrow>
               let s1 = s\<lparr>itsBuf := q\<rparr> in
               if empty im then Some (s1\<lparr>wpc := W_Close\<rparr>)
               else
                 let s2 = (if writer s1 = None then open_writer E im s1 else s1) in
                 (case writer s2 of
                    None \<Rightarrow> Some s2
                  | Some p \<Rightarrow> Some (write_frame p im s2)))
      | W_Close \<Rightarrow>
          Some (if itsFileNum s < INT_MAX
                then s\<lparr>itsFileNum := itsFileNum s + 1, writer := None, wpc := W_Loop\<rparr>
                else s\<lparr>wpc := W_Undefined\<rparr>)
      | _ \<Rightarrow> None)"

section \<open>Schedules\<close>

text \<open>
  An event is one atomic action of one side, and a schedule is a list of events: every
  interleaving of the two sides is a schedule. The caller's actions are enabled by its
  position: a command is taken between calls only, \<open>Poll\<close> is one test of the wait loop of
  \<^verbatim>\<open>stop\<close>, \<open>Join\<close> is the end of \<^verbatim>\<open>postUninit\<close>. \<open>Worker\<close> is one action of \<^verbatim>\<open>run\<close>.
  Frames may arrive at any position of the caller, which covers a caller that is one
  thread and more, and the file name parameter may be set at any time. An action of the
  writer thread starts at one access to the shared queue or flag and runs up to the
  next one: what lies between touches only what the thread owns, the disk and the
  encoder. \<^verbatim>\<open>process\<close> is one action: beside it the writer thread can only take images
  out of the queue.
\<close>

datatype event =
    PostInit
  | Process rawimage
  | ProcessOut rawimage rawimage
  | Cmd string
  | Poll
  | SetFilename string
  | PostUninit
  | Join
  | Worker

definition step :: "env \<Rightarrow> event \<Rightarrow> state \<Rightarrow> state option" where
  "step E e s =
     (case e of
        PostInit \<Rightarrow> if cpc s = C_New then Some (postInit s) else None
      | Process inimg \<Rightarrow> Some (process E inimg s)
      | ProcessOut inimg outimg \<Rightarrow> Some (process_out E inimg outimg s)
      | Cmd str \<Rightarrow> if cpc s = C_Idle then Some (parseSerial str s) else None
      | Poll \<Rightarrow> if cpc s = C_Stop then Some (stop_wait E s) else None
      | SetFilename fn \<Rightarrow> Some (s\<lparr>filename := fn\<rparr>)
      | PostUninit \<Rightarrow> if cpc s = C_Idle then Some (postUninit s) else None
      | Join \<Rightarrow> if cpc s = C_Uninit then join E s else None
      | Worker \<Rightarrow> run_step E s)"

fun exec :: "env \<Rightarrow> event list \<Rightarrow> state \<Rightarrow> state option" where
  "exec E [] s = Some s"
| "exec E (e # es) s = (case step E e s of None \<Rightarrow> None | Some s' \<Rightarrow> exec E es s')"

section \<open>An instance of the outside world\<close>

text \<open>
  For the examples: \<^verbatim>\<open>snprintf\<close> on a template with one directive \<^verbatim>\<open>%d\<close>, with an optional
  \<^verbatim>\<open>0\<close> flag and an optional width, as the documentation of the \<^verbatim>\<open>filename\<close> parameter asks
  for. A template of another shape is outside this instance and is returned as it is.
\<close>

definition digit_char :: "nat \<Rightarrow> char" where
  "digit_char k = ''0123456789'' ! k"

fun decimal :: "nat \<Rightarrow> string" where
  "decimal n = (if n < 10 then [digit_char n] else decimal (n div 10) @ [digit_char (n mod 10)])"

declare decimal.simps [simp del]

definition format_d :: "bool \<Rightarrow> nat \<Rightarrow> int \<Rightarrow> string" where
  "format_d zero w n =
     (let ds = decimal (nat \<bar>n\<bar>);
          sign = (if n < 0 then ''-'' else []);
          pad = w - (length sign + length ds)
      in if zero then sign @ replicate pad CHR ''0'' @ ds
         else replicate pad CHR '' '' @ sign @ ds)"

definition is_digit :: "char \<Rightarrow> bool" where
  "is_digit c = (c \<in> set ''0123456789'')"

definition digits_val :: "string \<Rightarrow> nat" where
  "digits_val ds = foldl (\<lambda>a c. 10 * a + (of_char c - 48)) 0 ds"

definition printf_d :: "string \<Rightarrow> int \<Rightarrow> string" where
  "printf_d f n =
     (let pre = takeWhile (\<lambda>c. c \<noteq> CHR ''%'') f;
          rest = dropWhile (\<lambda>c. c \<noteq> CHR ''%'') f
      in case rest of
           [] \<Rightarrow> f
         | p # r \<Rightarrow>
             let zero = (case r of [] \<Rightarrow> False | c # cs \<Rightarrow> c = CHR ''0'');
                 r1 = (if zero then tl r else r);
                 w = digits_val (takeWhile is_digit r1);
                 r2 = dropWhile is_digit r1
             in (case r2 of
                   [] \<Rightarrow> f
                 | c # post \<Rightarrow> if c = CHR ''d'' then pre @ format_d zero w n @ post else f))"

text \<open>An encoder that opens every file, a conversion that keeps the size of the image,
  and commands that succeed.\<close>

definition example_env :: env where
  "example_env =
     \<lparr>snprintf = printf_d,
      writer_open = (\<lambda>p c im. True),
      convertToCvBGR = (\<lambda>i. \<lparr>rows = height i, cols = width i, data = pixels i\<rparr>),
      system = (\<lambda>c. 0)\<rparr>"

definition example_image :: "nat \<Rightarrow> rawimage" where
  "example_image k = \<lparr>width = 2, height = 1, fmt = V4L2_PIX_FMT_YUYV, pixels = [k]\<rparr>"

section \<open>Notions for the properties\<close>

text \<open>The writer thread is healthy as long as \<^verbatim>\<open>LFATAL\<close> has not thrown and no signed
  increment has overflowed.\<close>

definition healthy :: "wpc \<Rightarrow> bool" where
  "healthy w = (case w of W_Fatal e \<Rightarrow> False | W_Undefined \<Rightarrow> False | _ \<Rightarrow> True)"

text \<open>The frames of a sequence of images: its images that are not empty, in order.\<close>

definition frames :: "mat list \<Rightarrow> mat list" where
  "frames q = filter (\<lambda>im. \<not> empty im) q"

text \<open>The invariant of the queue: the thread is not started before \<^verbatim>\<open>postInit\<close>, and the
  frames pushed so far are those given to the encoder followed by those still queued.\<close>

definition fifo :: "state \<Rightarrow> bool" where
  "fifo s =
     ((cpc s = C_New \<longrightarrow> wpc s = W_NotStarted) \<and>
      (healthy (wpc s) \<longrightarrow> frames (accepted s) = map snd (encoded s) @ frames (itsBuf s)))"

text \<open>No image given to the encoder is empty.\<close>

definition no_sentinel :: "(string \<times> mat) list \<Rightarrow> bool" where
  "no_sentinel l = list_all (\<lambda>x. \<not> empty (snd x)) l"

text \<open>States and values for the examples: the module after \<^verbatim>\<open>postInit\<close> with the writer
  thread waiting at \<^verbatim>\<open>pop\<close>, on a disk that holds the files \<open>d\<close>; the frame made from an
  example image; an encoder that opens no file.\<close>

definition example_idle :: "string set \<Rightarrow> state" where
  "example_idle d = (SaveVideo d)\<lparr>itsRunning := True, wpc := W_Pop, cpc := C_Idle\<rparr>"

definition example_frame :: "nat \<Rightarrow> mat" where
  "example_frame k = convertToCvBGR example_env (example_image k)"

definition refusing_env :: env where
  "refusing_env = example_env\<lparr>writer_open := (\<lambda>p c im. False)\<rparr>"

section \<open>Facts about single actions\<close>

lemma probe_Some:
  "probe E d fn n = Some (tmp, n') \<Longrightarrow>
     tmp \<notin> d \<and> n \<le> n' \<and> tmp = take 2046 (snprintf E fn n') \<and>
     (\<forall>k. n \<le> k \<and> k < n' \<longrightarrow> take 2046 (snprintf E fn k) \<in> d)"
proof (induction E d fn n rule: probe.induct)
  case (1 E d fn n)
  show ?case
  proof (cases "take 2046 (snprintf E fn n) \<notin> d")
    case True
    with "1.prems" show ?thesis by (auto simp: probe.simps[of E d fn n] Let_def)
  next
    case False
    with "1.prems" have lt: "n < INT_MAX" and rec: "probe E d fn (n + 1) = Some (tmp, n')"
      by (auto simp: probe.simps[of E d fn n] split: if_splits)
    from "1.IH"[OF refl _ lt rec] False
    have ih: "tmp \<notin> d \<and> n + 1 \<le> n' \<and> tmp = take 2046 (snprintf E fn n') \<and>
        (\<forall>k. n + 1 \<le> k \<and> k < n' \<longrightarrow> take 2046 (snprintf E fn k) \<in> d)" by blast
    have "\<And>k. n \<le> k \<Longrightarrow> k < n' \<Longrightarrow> take 2046 (snprintf E fn k) \<in> d"
    proof -
      fix k assume "n \<le> k" "k < n'"
      then consider "k = n" | "n + 1 \<le> k" by linarith
      then show "take 2046 (snprintf E fn k) \<in> d"
        using False ih \<open>k < n'\<close> by cases auto
    qed
    with ih show ?thesis by auto
  qed
qed

lemma open_writer_same [simp]:
  "encoded (open_writer E im s) = encoded s"
  "itsBuf (open_writer E im s) = itsBuf s"
  "accepted (open_writer E im s) = accepted s"
  "cpc (open_writer E im s) = cpc s"
  "frame (open_writer E im s) = frame s"
  by (simp_all add: open_writer_def Let_def split: option.splits prod.splits)

lemma open_writer_failed:
  "writer (open_writer E im s) = None \<Longrightarrow> \<not> healthy (wpc (open_writer E im s)) \<and> disk (open_writer E im s) = disk s"
  by (simp add: open_writer_def Let_def healthy_def split: option.splits prod.splits if_splits)

lemma open_writer_opened:
  "writer s = None \<Longrightarrow> writer (open_writer E im s) = Some p \<Longrightarrow>
     wpc (open_writer E im s) = wpc s \<and> disk (open_writer E im s) = insert p (disk s) \<and>
     itsFilename (open_writer E im s) = p \<and>
     probe E (disk s) (absolute (filename s)) (itsFileNum s) = Some (p, itsFileNum (open_writer E im s))"
  by (simp add: open_writer_def Let_def split: option.splits prod.splits if_splits)


lemma write_frame_fields [simp]:
  "encoded (write_frame p im s) = encoded s @ [(p, im)]"
  "itsBuf (write_frame p im s) = itsBuf s"
  "accepted (write_frame p im s) = accepted s"
  "itsFileNum (write_frame p im s) = itsFileNum s"
  "writer (write_frame p im s) = writer s"
  "disk (write_frame p im s) = disk s"
  "cpc (write_frame p im s) = cpc s"
  by (simp_all add: write_frame_def Let_def)

lemma write_frame_wpc: "healthy (wpc (write_frame p im s)) \<Longrightarrow> wpc (write_frame p im s) = wpc s"
  by (simp add: write_frame_def Let_def healthy_def split: if_splits)



lemma caller_itsFileNum [simp]:
  "itsFileNum (enqueue E inimg s) = itsFileNum s"
  "itsFileNum (process E inimg s) = itsFileNum s"
  "itsFileNum (process_out E inimg outimg s) = itsFileNum s"
  "itsFileNum (parseSerial str s) = itsFileNum s"
  "itsFileNum (stop_wait E s) = itsFileNum s"
  "itsFileNum (postInit s) = itsFileNum s"
  "itsFileNum (postUninit s) = itsFileNum s"
  by (simp_all add: enqueue_def process_def process_out_def parseSerial_def stop_wait_def
      postInit_def postUninit_def Let_def)





lemma frames_simps [simp]:
  "frames [] = []"
  "frames (q @ q') = frames q @ frames q'"
  "frames (im # q) = (if empty im then frames q else im # frames q)"
  "empty cv_Mat"
  by (simp_all add: frames_def empty_def cv_Mat_def)

lemma healthy_simps [simp]:
  "healthy W_NotStarted" "healthy W_Loop" "healthy W_Pop" "healthy W_Close" "healthy W_Exited"
  "\<not> healthy (W_Fatal e)" "\<not> healthy W_Undefined"
  by (simp_all add: healthy_def)

lemma run_step_fifo:
  assumes "run_step E s = Some s'" and "fifo s"
  shows "fifo s'"
proof (cases "wpc s")
  case W_Pop
  from assms(1) W_Pop obtain im q where q: "itsBuf s = im # q"
    by (auto simp: run_step_def pop_def split: list.splits)
  let ?s1 = "s\<lparr>itsBuf := q\<rparr>"
  show ?thesis
  proof (cases "empty im")
    case True
    with assms W_Pop q show ?thesis
      by (auto simp: run_step_def pop_def fifo_def)
  next
    case False
    let ?s2 = "if writer ?s1 = None then open_writer E im ?s1 else ?s1"
    show ?thesis
    proof (cases "writer ?s2")
      case None
      with assms(1) W_Pop q False have s': "s' = ?s2"
        by (simp add: run_step_def pop_def Let_def)
      from None have "writer (open_writer E im ?s1) = None" by (simp split: if_splits)
      from open_writer_failed [OF this] None assms(2) W_Pop show ?thesis
        unfolding s' by (auto simp: fifo_def split: if_splits)
    next
      case (Some p)
      with assms(1) W_Pop q False have s': "s' = write_frame p im ?s2"
        by (simp add: run_step_def pop_def Let_def)
      have w2: "wpc ?s2 = W_Pop"
        using Some W_Pop open_writer_opened [of ?s1 E im p] by (auto split: if_splits)
      have e2: "encoded ?s2 = encoded s" "accepted ?s2 = accepted s" "itsBuf ?s2 = q" "cpc ?s2 = cpc s"
        by simp_all
      show ?thesis
      proof (cases "healthy (wpc s')")
        case True
        with write_frame_wpc [of p im ?s2] w2 have "wpc s' = W_Pop" by (simp add: s')
        with assms(2) W_Pop q False e2 show ?thesis
          by (simp add: fifo_def s')
      next
        case False
        with assms(2) W_Pop e2 show ?thesis
          by (auto simp: fifo_def s' healthy_def)
      qed
    qed
  qed
qed (use assms in \<open>auto simp: run_step_def fifo_def split: if_splits\<close>)

lemma step_fifo:
  assumes "step E e s = Some s'" and "fifo s"
  shows "fifo s'"
proof (cases e)
  case Worker
  with assms run_step_fifo show ?thesis by (simp add: step_def)
next
  case Join
  with assms show ?thesis
    by (auto simp: step_def join_def fifo_def Let_def split: if_splits)
qed (use assms in \<open>auto simp: step_def fifo_def postInit_def process_def process_out_def enqueue_def
      parseSerial_def stop_wait_def postUninit_def push_def Let_def split: if_splits\<close>)

lemma exec_fifo: "exec E evs s = Some s' \<Longrightarrow> fifo s \<Longrightarrow> fifo s'"
proof (induction evs arbitrary: s)
  case Nil
  then show ?case by simp
next
  case (Cons e evs)
  then obtain s1 where 1: "step E e s = Some s1" and 2: "exec E evs s1 = Some s'"
    by (auto split: option.splits)
  from step_fifo [OF 1 Cons.prems(2)] Cons.IH [OF 2] show ?case by simp
qed

lemma fifo_SaveVideo: "fifo (SaveVideo d)"
  by (simp add: fifo_def SaveVideo_def)







lemma step_fatal:
  assumes "wpc s = W_Fatal x" and "cpc s \<noteq> C_New" and "step E e s = Some s'"
  shows "e \<noteq> Worker \<and> wpc s' = W_Fatal x \<and> cpc s' \<noteq> C_New \<and> encoded s' = encoded s \<and> disk s' = disk s"
  using assms
  by (cases e)
     (auto simp: step_def run_step_def process_def process_out_def enqueue_def parseSerial_def
        stop_wait_def postUninit_def join_def Let_def split: if_splits)

lemma exec_fatal:
  "wpc s = W_Fatal x \<Longrightarrow> cpc s \<noteq> C_New \<Longrightarrow> exec E evs s = Some s' \<Longrightarrow>
     Worker \<notin> set evs \<and> wpc s' = W_Fatal x \<and> encoded s' = encoded s \<and> disk s' = disk s"
proof (induction evs arbitrary: s)
  case Nil
  then show ?case by simp
next
  case (Cons e evs)
  then obtain s1 where 1: "step E e s = Some s1" and 2: "exec E evs s1 = Some s'"
    by (auto split: option.splits)
  from step_fatal [OF Cons.prems(1,2) 1]
  have a: "e \<noteq> Worker" "wpc s1 = W_Fatal x" "cpc s1 \<noteq> C_New" "encoded s1 = encoded s" "disk s1 = disk s"
    by simp_all
  from Cons.IH [OF a(2,3) 2] a show ?case by simp
qed

lemma open_writer_fatal:
  assumes "filename s = [] \<or>
       (\<exists>tmp n. probe E (disk s) (absolute (filename s)) (itsFileNum s) = Some (tmp, n)
          \<and> \<not> writer_open E tmp (fourcc s) im)"
  shows "\<exists>x. wpc (open_writer E im s) = W_Fatal x
           \<and> (filename s = [] \<longrightarrow> x = Empty_filename)
           \<and> (filename s \<noteq> [] \<longrightarrow> (\<exists>tmp. x = Open_failed tmp))
           \<and> writer (open_writer E im s) = writer s \<and> disk (open_writer E im s) = disk s"
  using assms by (auto simp: open_writer_def Let_def)

lemma run_step_no_sentinel:
  assumes "run_step E s = Some s'" and "no_sentinel (encoded s)"
  shows "no_sentinel (encoded s')"
  using assms
  by (auto simp: run_step_def pop_def Let_def no_sentinel_def
      split: wpc.splits list.splits option.splits if_splits)

lemma step_no_sentinel:
  assumes "step E e s = Some s'" and "no_sentinel (encoded s)"
  shows "no_sentinel (encoded s')"
proof (cases e)
  case Worker
  with assms run_step_no_sentinel show ?thesis by (simp add: step_def)
qed (use assms in \<open>auto simp: step_def postInit_def process_def process_out_def enqueue_def
      parseSerial_def stop_wait_def postUninit_def join_def Let_def split: if_splits\<close>)

lemma exec_no_sentinel:
  "exec E evs s = Some s' \<Longrightarrow> no_sentinel (encoded s) \<Longrightarrow> no_sentinel (encoded s')"
proof (induction evs arbitrary: s)
  case Nil
  then show ?case by simp
next
  case (Cons e evs)
  then obtain s1 where 1: "step E e s = Some s1" and 2: "exec E evs s1 = Some s'"
    by (auto split: option.splits)
  from step_no_sentinel [OF 1 Cons.prems(2)] Cons.IH [OF 2] show ?case by simp
qed

lemma step_at_close:
  assumes "wpc s = W_Close" and "step E e s = Some s'"
  shows "encoded s' = encoded s \<and>
     (if e = Worker
      then itsBuf s' = itsBuf s \<and> (wpc s' = W_Loop \<and> writer s' = None \<or> wpc s' = W_Undefined)
      else wpc s' = W_Close \<and> writer s' = writer s \<or> e = PostInit)"
  using assms
  by (cases e)
     (auto simp: step_def run_step_def postInit_def process_def process_out_def enqueue_def
        parseSerial_def stop_wait_def postUninit_def join_def Let_def split: if_splits)

lemma run_step_opened:
  assumes "wpc s = W_Pop" and "writer s = None" and "run_step E s = Some s'" and "writer s' = Some p"
  shows "probe E (disk s) (absolute (filename s)) (itsFileNum s) = Some (p, itsFileNum s')
       \<and> itsFilename s' = p \<and> disk s' = insert p (disk s)"
proof -
  from assms(1,3) obtain im q where q: "itsBuf s = im # q"
    by (auto simp: run_step_def pop_def split: list.splits)
  let ?s1 = "s\<lparr>itsBuf := q\<rparr>"
  let ?s2 = "open_writer E im ?s1"
  from assms q have ne: "\<not> empty im"
    by (auto simp: run_step_def pop_def split: if_splits)
  from assms q ne have w2: "writer ?s2 = Some p"
    by (auto simp: run_step_def pop_def Let_def split: option.splits)
  with assms q ne have s': "s' = write_frame p im ?s2"
    by (simp add: run_step_def pop_def Let_def)
  have "writer ?s1 = None" using assms(2) by simp
  from open_writer_opened [OF this w2] show ?thesis
    by (simp add: s' write_frame_def Let_def)
qed

lemma stop_returns_on_empty_queue:
  "cpc s = C_Stop \<Longrightarrow> step E Poll s = Some s' \<Longrightarrow> cpc s' = C_Idle \<Longrightarrow> itsBuf s = [] \<and> itsBuf s' = []"
  by (auto simp: step_def stop_wait_def filled_size_def Let_def split: if_splits)

section \<open>Examples\<close>

lemma example_idle_reachable: "exec E [PostInit, Worker] (SaveVideo d) = Some (example_idle d)"
  by (simp add: step_def postInit_def run_step_def SaveVideo_def example_idle_def)

lemma two_sessions_example:
  "map_option (map fst \<circ> encoded)
     (exec example_env
        [PostInit, Worker,
         Cmd ''start'', Process (example_image 1), Worker, Cmd ''stop'', Worker, Worker, Poll,
         Worker,
         Cmd ''start'', Process (example_image 2), Worker, Cmd ''stop'', Worker, Worker, Poll]
        (SaveVideo {''/jevois/data/savevideo/video000000.avi''}))
   = Some [''/jevois/data/savevideo/video000001.avi'', ''/jevois/data/savevideo/video000002.avi'']"
  by code_simp

section \<open>The properties\<close>



text \<open>
  C2. The claim is that a \<^verbatim>\<open>stop\<close> for a session in which no frame was recorded creates
  no file and does not increment the counter. The first half holds and the second does
  not: the writer thread increments \<^verbatim>\<open>itsFileNum\<close> after every empty image it pops (line
  286), and the module documents that (\<^verbatim>\<open>stop - stop saving video and increment video
  file number\<close>). As amended: when \<^verbatim>\<open>stop\<close> is issued while the writer thread waits at
  \<^verbatim>\<open>pop\<close> with no encoder open and nothing queued, and the writer thread handles the
  empty image before the wait loop of \<^verbatim>\<open>stop\<close> tests the queue, then \<^verbatim>\<open>stop\<close> returns, no
  file has been created and nothing has been encoded, and the counter has been
  incremented by exactly one (below \<^verbatim>\<open>INT_MAX\<close>, where \<^verbatim>\<open>++itsFileNum\<close> is defined).
\<close>

theorem stop_without_frames:
  assumes "cpc s = C_Idle" and "wpc s = W_Pop" and "writer s = None" and "itsBuf s = []"
    and "itsFileNum s < INT_MAX"
  shows "\<exists>s'. exec E [Cmd ''stop'', Worker, Worker, Poll] s = Some s' \<and> cpc s' = C_Idle
           \<and> disk s' = disk s \<and> encoded s' = encoded s \<and> writer s' = None
           \<and> itsFileNum s' = itsFileNum s + 1"
  using assms
  by (simp add: step_def run_step_def pop_def parseSerial_def push_def stop_wait_def
      filled_size_def empty_def cv_Mat_def Let_def)

theorem stop_without_frames_witness:
  "cpc (example_idle {}) = C_Idle \<and> wpc (example_idle {}) = W_Pop
   \<and> writer (example_idle {}) = None \<and> itsBuf (example_idle {}) = []
   \<and> itsFileNum (example_idle {}) = 0 \<and> disk (example_idle {}) = {}
   \<and> (\<exists>s'. exec example_env [Cmd ''stop'', Worker, Worker, Poll] (example_idle {}) = Some s'
          \<and> cpc s' = C_Idle \<and> disk s' = {} \<and> encoded s' = [] \<and> writer s' = None
          \<and> itsFileNum s' = 1)"
proof -
  let ?s = "example_idle {}"
  have a: "cpc ?s = C_Idle" "wpc ?s = W_Pop" "writer ?s = None" "itsBuf ?s = []"
    "itsFileNum ?s < INT_MAX" "itsFileNum ?s = 0" "disk ?s = {}" "encoded ?s = []"
    by (simp_all add: example_idle_def SaveVideo_def INT_MAX_def)
  from stop_without_frames [OF a(1,2,3,4,5), of example_env] a(6,7,8)
  have "\<exists>s'. exec example_env [Cmd ''stop'', Worker, Worker, Poll] ?s = Some s'
          \<and> cpc s' = C_Idle \<and> disk s' = {} \<and> encoded s' = [] \<and> writer s' = None
          \<and> itsFileNum s' = 1" by auto
  with a show ?thesis by (intro conjI)
qed

text \<open>The claim as stated fails on the constructed module: after \<^verbatim>\<open>start\<close> the counter is
  0 and nothing was recorded; after \<^verbatim>\<open>stop\<close> has returned no file exists and the counter
  is 1.\<close>

theorem stop_without_frames_counterexample:
  "map_option itsFileNum (exec example_env [PostInit, Worker, Cmd ''start''] (SaveVideo {})) = Some 0
   \<and> map_option encoded (exec example_env [PostInit, Worker, Cmd ''start''] (SaveVideo {})) = Some []
   \<and> map_option writer (exec example_env [PostInit, Worker, Cmd ''start''] (SaveVideo {})) = Some None
   \<and> map_option cpc
        (exec example_env [PostInit, Worker, Cmd ''start'', Cmd ''stop'', Worker, Worker, Poll]
           (SaveVideo {})) = Some C_Idle
   \<and> map_option disk
        (exec example_env [PostInit, Worker, Cmd ''start'', Cmd ''stop'', Worker, Worker, Poll]
           (SaveVideo {})) = Some {}
   \<and> map_option itsFileNum
        (exec example_env [PostInit, Worker, Cmd ''start'', Cmd ''stop'', Worker, Worker, Poll]
           (SaveVideo {})) = Some 1"
  by (intro conjI; code_simp)

text \<open>
  C3. \<^verbatim>\<open>stop\<close> returns once it has read a filled size of zero, which is as soon as the
  writer thread has popped the empty image; the writer thread closes the file only
  afterwards, when its \<^verbatim>\<open>cv::VideoWriter\<close> goes out of scope (lines 285 to 287). So the
  first half of the claim holds (\<open>stop_returns_on_empty_queue\<close>) and the second does not:
  in the following schedule one frame is recorded, \<^verbatim>\<open>stop\<close> is issued, the writer thread
  pops the empty image, and the next test of the wait loop ends \<^verbatim>\<open>stop\<close>: the caller is
  back between calls, the queue is empty, and the writer thread is still before line 286
  with the encoder open on the file of the session.
\<close>

theorem stop_returns_before_file_closed:
  "map_option cpc
     (exec example_env
        [PostInit, Worker, Cmd ''start'', Process (example_image 1), Worker, Cmd ''stop'', Worker]
        (SaveVideo {})) = Some C_Stop
   \<and> map_option cpc
     (exec example_env
        [PostInit, Worker, Cmd ''start'', Process (example_image 1), Worker, Cmd ''stop'', Worker,
         Poll]
        (SaveVideo {})) = Some C_Idle
   \<and> map_option itsBuf
     (exec example_env
        [PostInit, Worker, Cmd ''start'', Process (example_image 1), Worker, Cmd ''stop'', Worker,
         Poll]
        (SaveVideo {})) = Some []
   \<and> map_option wpc
     (exec example_env
        [PostInit, Worker, Cmd ''start'', Process (example_image 1), Worker, Cmd ''stop'', Worker,
         Poll]
        (SaveVideo {})) = Some W_Close
   \<and> map_option writer
     (exec example_env
        [PostInit, Worker, Cmd ''start'', Process (example_image 1), Worker, Cmd ''stop'', Worker,
         Poll]
        (SaveVideo {})) = Some (Some ''/jevois/data/savevideo/video000000.avi'')"
  by (intro conjI; code_simp)

text \<open>
  C4. When the writer thread opens the encoder, the chosen path is not on the disk: it
  is the template with the final value of the counter, every counter value passed over
  gave a name that is on the disk, and the counter only went up. With
  \<^verbatim>\<open>video000000.avi\<close> on the disk and the counter at 0, two sessions of one frame each
  write to \<^verbatim>\<open>video000001.avi\<close> and then to \<^verbatim>\<open>video000002.avi\<close> (under
  \<^verbatim>\<open>/jevois/data/savevideo/\<close>).
\<close>

theorem session_open_skips_existing_files:
  "(wpc s = W_Pop \<and> writer s = None \<and> run_step E s = Some s' \<and> writer s' = Some p \<longrightarrow>
      p \<notin> disk s \<and> disk s' = insert p (disk s) \<and> itsFilename s' = p
      \<and> p = take 2046 (snprintf E (absolute (filename s)) (itsFileNum s'))
      \<and> itsFileNum s \<le> itsFileNum s'
      \<and> (\<forall>k. itsFileNum s \<le> k \<and> k < itsFileNum s' \<longrightarrow>
             take 2046 (snprintf E (absolute (filename s)) k) \<in> disk s))
   \<and> map_option (map fst \<circ> encoded)
       (exec example_env
          [PostInit, Worker,
           Cmd ''start'', Process (example_image 1), Worker, Cmd ''stop'', Worker, Worker, Poll,
           Worker,
           Cmd ''start'', Process (example_image 2), Worker, Cmd ''stop'', Worker, Worker, Poll]
          (SaveVideo {''/jevois/data/savevideo/video000000.avi''}))
     = Some [''/jevois/data/savevideo/video000001.avi'',
             ''/jevois/data/savevideo/video000002.avi'']"
proof (rule conjI)
  show "wpc s = W_Pop \<and> writer s = None \<and> run_step E s = Some s' \<and> writer s' = Some p \<longrightarrow>
      p \<notin> disk s \<and> disk s' = insert p (disk s) \<and> itsFilename s' = p
      \<and> p = take 2046 (snprintf E (absolute (filename s)) (itsFileNum s'))
      \<and> itsFileNum s \<le> itsFileNum s'
      \<and> (\<forall>k. itsFileNum s \<le> k \<and> k < itsFileNum s' \<longrightarrow>
             take 2046 (snprintf E (absolute (filename s)) k) \<in> disk s)"
  proof
    assume a: "wpc s = W_Pop \<and> writer s = None \<and> run_step E s = Some s' \<and> writer s' = Some p"
    then have "probe E (disk s) (absolute (filename s)) (itsFileNum s) = Some (p, itsFileNum s')
       \<and> itsFilename s' = p \<and> disk s' = insert p (disk s)"
      using run_step_opened [of s E s' p] by blast
    with probe_Some [of E "disk s" "absolute (filename s)" "itsFileNum s" p "itsFileNum s'"]
    show "p \<notin> disk s \<and> disk s' = insert p (disk s) \<and> itsFilename s' = p
      \<and> p = take 2046 (snprintf E (absolute (filename s)) (itsFileNum s'))
      \<and> itsFileNum s \<le> itsFileNum s'
      \<and> (\<forall>k. itsFileNum s \<le> k \<and> k < itsFileNum s' \<longrightarrow>
             take 2046 (snprintf E (absolute (filename s)) k) \<in> disk s)"
      by blast
  qed
qed (rule two_sessions_example)

theorem session_open_skips_existing_files_witness:
  "\<exists>s'. wpc (example_idle {''/jevois/data/savevideo/video000000.avi''}
              \<lparr>itsBuf := [example_frame 1]\<rparr>) = W_Pop
      \<and> writer (example_idle {''/jevois/data/savevideo/video000000.avi''}
              \<lparr>itsBuf := [example_frame 1]\<rparr>) = None
      \<and> run_step example_env (example_idle {''/jevois/data/savevideo/video000000.avi''}
              \<lparr>itsBuf := [example_frame 1]\<rparr>) = Some s'
      \<and> writer s' = Some ''/jevois/data/savevideo/video000001.avi''
      \<and> ''/jevois/data/savevideo/video000001.avi''
          \<notin> disk (example_idle {''/jevois/data/savevideo/video000000.avi''}
              \<lparr>itsBuf := [example_frame 1]\<rparr>)
      \<and> itsFileNum s' = 1"
proof -
  let ?s = "example_idle {''/jevois/data/savevideo/video000000.avi''}\<lparr>itsBuf := [example_frame 1]\<rparr>"
  let ?p = "''/jevois/data/savevideo/video000001.avi''"
  have "map_option writer (run_step example_env ?s) = Some (Some ?p)"
    and "map_option itsFileNum (run_step example_env ?s) = Some 1"
    by code_simp+
  then obtain s' where r: "run_step example_env ?s = Some s'" and w: "writer s' = Some ?p"
    and n: "itsFileNum s' = 1" by auto
  have h: "wpc ?s = W_Pop" "writer ?s = None" by (simp_all add: example_idle_def SaveVideo_def)
  from session_open_skips_existing_files [of ?s example_env s' ?p] h r w
  have "?p \<notin> disk ?s" by blast
  with h r w n show ?thesis by (intro exI [of _ s'] conjI) assumption+
qed



text \<open>
  C6. The empty image is never written to the encoder, and it is the last item the writer
  thread takes from the queue before it closes the encoder. After any schedule from the
  constructed module: no image given to the encoder is empty; a writer thread at \<^verbatim>\<open>pop\<close>
  with an empty image at the head of the queue removes it, writes nothing and goes to
  the position after the inner loop; and at that position the writer thread can move,
  its action takes nothing from the queue and closes the encoder (or is the undefined
  increment at \<^verbatim>\<open>INT_MAX\<close>), and no action of the other side writes to the encoder or moves
  the writer thread.
\<close>

theorem sentinel_never_encoded:
  assumes "exec E evs (SaveVideo d) = Some s"
  shows "no_sentinel (encoded s)
       \<and> (\<forall>im q. wpc s = W_Pop \<and> itsBuf s = im # q \<and> empty im \<longrightarrow>
             run_step E s = Some (s\<lparr>itsBuf := q, wpc := W_Close\<rparr>))
       \<and> (wpc s = W_Close \<longrightarrow>
             (\<exists>s'. run_step E s = Some s') \<and>
             (\<forall>e s'. step E e s = Some s' \<longrightarrow>
                encoded s' = encoded s \<and>
                (if e = Worker
                 then itsBuf s' = itsBuf s \<and>
                      (wpc s' = W_Loop \<and> writer s' = None \<or> wpc s' = W_Undefined)
                 else wpc s' = W_Close \<and> writer s' = writer s)))"
proof -
  have "no_sentinel (encoded (SaveVideo d))" by (simp add: SaveVideo_def no_sentinel_def)
  from exec_no_sentinel [OF assms this] have a: "no_sentinel (encoded s)" .
  have b: "\<forall>im q. wpc s = W_Pop \<and> itsBuf s = im # q \<and> empty im \<longrightarrow>
             run_step E s = Some (s\<lparr>itsBuf := q, wpc := W_Close\<rparr>)"
    by (simp add: run_step_def pop_def)
  from exec_fifo [OF assms fifo_SaveVideo] have n: "wpc s = W_Close \<longrightarrow> cpc s \<noteq> C_New"
    by (auto simp: fifo_def)
  have c: "wpc s = W_Close \<longrightarrow>
             (\<exists>s'. run_step E s = Some s') \<and>
             (\<forall>e s'. step E e s = Some s' \<longrightarrow>
                encoded s' = encoded s \<and>
                (if e = Worker
                 then itsBuf s' = itsBuf s \<and>
                      (wpc s' = W_Loop \<and> writer s' = None \<or> wpc s' = W_Undefined)
                 else wpc s' = W_Close \<and> writer s' = writer s))"
  proof
    assume w: "wpc s = W_Close"
    with n have k: "cpc s \<noteq> C_New" by simp
    have 1: "\<exists>s'. run_step E s = Some s'" using w by (simp add: run_step_def)
    have 2: "\<forall>e s'. step E e s = Some s' \<longrightarrow>
                encoded s' = encoded s \<and>
                (if e = Worker
                 then itsBuf s' = itsBuf s \<and>
                      (wpc s' = W_Loop \<and> writer s' = None \<or> wpc s' = W_Undefined)
                 else wpc s' = W_Close \<and> writer s' = writer s)"
    proof (intro allI impI)
      fix e s' assume st: "step E e s = Some s'"
      from st k have "e \<noteq> PostInit" by (auto simp: step_def)
      with step_at_close [OF w st] show "encoded s' = encoded s \<and>
                (if e = Worker
                 then itsBuf s' = itsBuf s \<and>
                      (wpc s' = W_Loop \<and> writer s' = None \<or> wpc s' = W_Undefined)
                 else wpc s' = W_Close \<and> writer s' = writer s)"
        by (auto split: if_splits)
    qed
    from 1 2 show "(\<exists>s'. run_step E s = Some s') \<and>
             (\<forall>e s'. step E e s = Some s' \<longrightarrow>
                encoded s' = encoded s \<and>
                (if e = Worker
                 then itsBuf s' = itsBuf s \<and>
                      (wpc s' = W_Loop \<and> writer s' = None \<or> wpc s' = W_Undefined)
                 else wpc s' = W_Close \<and> writer s' = writer s))" by (rule conjI)
  qed
  from a b c show ?thesis by (intro conjI)
qed

theorem sentinel_never_encoded_witness:
  "\<exists>s. exec example_env
          [PostInit, Worker, Cmd ''start'', Process (example_image 1), Worker, Cmd ''stop'', Worker]
          (SaveVideo {}) = Some s
       \<and> wpc s = W_Close
       \<and> encoded s = [(''/jevois/data/savevideo/video000000.avi'', example_frame 1)]
       \<and> no_sentinel (encoded s)
       \<and> (\<exists>s'. run_step example_env s = Some s')"
proof -
  let ?r = "exec example_env
          [PostInit, Worker, Cmd ''start'', Process (example_image 1), Worker, Cmd ''stop'', Worker]
          (SaveVideo {})"
  have "map_option wpc ?r = Some W_Close"
    and "map_option encoded ?r = Some [(''/jevois/data/savevideo/video000000.avi'', example_frame 1)]"
    by code_simp+
  then obtain s where h: "?r = Some s" and v: "wpc s = W_Close"
    "encoded s = [(''/jevois/data/savevideo/video000000.avi'', example_frame 1)]"
    by auto
  from sentinel_never_encoded [OF h] v(1)
  have "no_sentinel (encoded s)" "\<exists>s'. run_step example_env s = Some s'" by blast+
  with h v show ?thesis by - (rule exI [of _ s], intro conjI, assumption+)
qed



text \<open>
  C8. While \<^verbatim>\<open>itsSaving\<close> is false, \<^verbatim>\<open>process\<close> leaves the whole state as it is, and the
  version with a video output leaves the queue, the pushed frames and the encoder as they
  are: when its two \<^verbatim>\<open>require\<close> checks pass, all it does is send the input image with
  the text lines to the USB output.
\<close>

theorem not_recording_leaves_queue:
  assumes "\<not> itsSaving s"
  shows "process E inimg s = s
       \<and> itsBuf (process_out E inimg outimg s) = itsBuf s
       \<and> accepted (process_out E inimg outimg s) = accepted s
       \<and> encoded (process_out E inimg outimg s) = encoded s
       \<and> (fmt inimg = V4L2_PIX_FMT_YUYV \<and> width outimg = width inimg
            \<and> height outimg = height inimg \<and> fmt outimg = V4L2_PIX_FMT_YUYV \<longrightarrow>
          process_out E inimg outimg s =
            s\<lparr>usb := usb s @ [\<lparr>img = outimg\<lparr>pixels := pixels inimg\<rparr>,
                                overlay = ''SaveVideo: not recording'',
                                caption = itsFilename s\<rparr>]\<rparr>)"
  using assms
  by (simp add: process_def process_out_def enqueue_def Let_def)

theorem not_recording_leaves_queue_witness:
  "\<not> itsSaving (example_idle {})
   \<and> process example_env (example_image 1) (example_idle {}) = example_idle {}
   \<and> itsBuf (process_out example_env (example_image 1) (example_image 0) (example_idle {})) = []
   \<and> process_out example_env (example_image 1) (example_image 0) (example_idle {})
      = example_idle {}\<lparr>usb := [\<lparr>img = example_image 1, overlay = ''SaveVideo: not recording'',
                                   caption = []\<rparr>]\<rparr>"
proof -
  have a: "\<not> itsSaving (example_idle {})" by (simp add: example_idle_def SaveVideo_def)
  have b: "itsBuf (example_idle {}) = []" "usb (example_idle {}) = []"
    "itsFilename (example_idle {}) = []"
    by (simp_all add: example_idle_def SaveVideo_def)
  have c: "fmt (example_image 1) = V4L2_PIX_FMT_YUYV \<and> width (example_image 0) = width (example_image 1)
      \<and> height (example_image 0) = height (example_image 1) \<and> fmt (example_image 0) = V4L2_PIX_FMT_YUYV"
    "example_image 0\<lparr>pixels := pixels (example_image 1)\<rparr> = example_image 1"
    by (simp_all add: example_image_def)
  from not_recording_leaves_queue [OF a, of example_env "example_image 1" "example_image 0"] a b c
  show ?thesis by simp
qed

text \<open>
  C9. When the writer thread of a started module, with no encoder open, pops a frame and
  the file name parameter is empty, or the encoder cannot be opened on the name found,
  \<^verbatim>\<open>LFATAL\<close> throws out of \<^verbatim>\<open>run\<close> (with the error of the case): the frame is not
  written, the encoder is not open, and the thread has ended, so that in every later
  schedule it takes no action and nothing is written.
\<close>

theorem session_open_failure_is_fatal:
  assumes "wpc s = W_Pop" and "cpc s \<noteq> C_New" and "writer s = None"
    and "itsBuf s = im # q" and "\<not> empty im"
    and "filename s = [] \<or>
       (\<exists>tmp n. probe E (disk s) (absolute (filename s)) (itsFileNum s) = Some (tmp, n)
          \<and> \<not> writer_open E tmp (fourcc s) im)"
  shows "\<exists>s' x. run_step E s = Some s' \<and> wpc s' = W_Fatal x
           \<and> (filename s = [] \<longrightarrow> x = Empty_filename)
           \<and> (filename s \<noteq> [] \<longrightarrow> (\<exists>tmp. x = Open_failed tmp))
           \<and> encoded s' = encoded s \<and> writer s' = None
           \<and> run_step E s' = None
           \<and> (\<forall>evs s''. exec E evs s' = Some s'' \<longrightarrow>
                 Worker \<notin> set evs \<and> wpc s'' = W_Fatal x \<and> encoded s'' = encoded s)"
proof -
  let ?s1 = "s\<lparr>itsBuf := q\<rparr>"
  let ?s' = "open_writer E im ?s1"
  from assms(6) have "filename ?s1 = [] \<or>
       (\<exists>tmp n. probe E (disk ?s1) (absolute (filename ?s1)) (itsFileNum ?s1) = Some (tmp, n)
          \<and> \<not> writer_open E tmp (fourcc ?s1) im)" by simp
  from open_writer_fatal [OF this] obtain x where x: "wpc ?s' = W_Fatal x"
    "filename s = [] \<longrightarrow> x = Empty_filename" "filename s \<noteq> [] \<longrightarrow> (\<exists>tmp. x = Open_failed tmp)"
    "writer ?s' = writer ?s1" "disk ?s' = disk ?s1" by auto
  from x(4) assms(3) have w: "writer ?s' = None" by simp
  with assms have r: "run_step E s = Some ?s'"
    by (simp add: run_step_def pop_def Let_def)
  have c: "cpc ?s' \<noteq> C_New" using assms(2) by simp
  have n: "run_step E ?s' = None" using x(1) by (simp add: run_step_def)
  have e: "encoded ?s' = encoded s" by simp
  have "\<forall>evs s''. exec E evs ?s' = Some s'' \<longrightarrow>
          Worker \<notin> set evs \<and> wpc s'' = W_Fatal x \<and> encoded s'' = encoded s"
    using exec_fatal [OF x(1) c] e by metis
  with r x(1,2,3) e w n show ?thesis by blast
qed

theorem session_open_failure_is_fatal_witness:
  "filename (example_idle {}\<lparr>filename := [], itsBuf := [example_frame 1]\<rparr>) = []
   \<and> \<not> empty (example_frame 1)
   \<and> (\<exists>s'. run_step example_env (example_idle {}\<lparr>filename := [], itsBuf := [example_frame 1]\<rparr>)
             = Some s'
          \<and> wpc s' = W_Fatal Empty_filename \<and> encoded s' = []
          \<and> run_step example_env s' = None)
   \<and> probe refusing_env {} (absolute ''video%06d.avi'') 0
        = Some (''/jevois/data/savevideo/video000000.avi'', 0)
   \<and> \<not> writer_open refusing_env ''/jevois/data/savevideo/video000000.avi'' ''MJPG'' (example_frame 1)
   \<and> (\<exists>s' tmp. run_step refusing_env (example_idle {}\<lparr>itsBuf := [example_frame 1]\<rparr>) = Some s'
          \<and> wpc s' = W_Fatal (Open_failed tmp) \<and> encoded s' = []
          \<and> run_step refusing_env s' = None)"
proof -
  let ?a = "example_idle {}\<lparr>filename := [], itsBuf := [example_frame 1]\<rparr>"
  let ?b = "example_idle {}\<lparr>itsBuf := [example_frame 1]\<rparr>"
  have ne: "\<not> empty (example_frame 1)" by code_simp
  have a: "wpc ?a = W_Pop" "cpc ?a \<noteq> C_New" "writer ?a = None" "itsBuf ?a = example_frame 1 # []"
    "filename ?a = []" "encoded ?a = []" "disk ?a = {}"
    by (simp_all add: example_idle_def SaveVideo_def)
  have b: "wpc ?b = W_Pop" "cpc ?b \<noteq> C_New" "writer ?b = None" "itsBuf ?b = example_frame 1 # []"
    "filename ?b = ''video%06d.avi''" "encoded ?b = []" "disk ?b = {}" "itsFileNum ?b = 0"
    "fourcc ?b = ''MJPG''"
    by (simp_all add: example_idle_def SaveVideo_def)
  have p: "probe refusing_env {} (absolute ''video%06d.avi'') 0
        = Some (''/jevois/data/savevideo/video000000.avi'', 0)" by code_simp
  have o: "\<not> writer_open refusing_env ''/jevois/data/savevideo/video000000.avi'' ''MJPG'' (example_frame 1)"
    by (simp add: refusing_env_def)
  have "filename ?a = [] \<or>
       (\<exists>tmp n. probe example_env (disk ?a) (absolute (filename ?a)) (itsFileNum ?a) = Some (tmp, n)
          \<and> \<not> writer_open example_env tmp (fourcc ?a) (example_frame 1))"
    using a(5) by (rule disjI1)
  from session_open_failure_is_fatal [OF a(1,2,3,4) ne this] a(5,6,7)
  have 1: "\<exists>s'. run_step example_env ?a = Some s'
          \<and> wpc s' = W_Fatal Empty_filename \<and> encoded s' = []
          \<and> run_step example_env s' = None"
    by (metis (no_types, lifting))
  have "filename ?b = [] \<or>
       (\<exists>tmp n. probe refusing_env (disk ?b) (absolute (filename ?b)) (itsFileNum ?b) = Some (tmp, n)
          \<and> \<not> writer_open refusing_env tmp (fourcc ?b) (example_frame 1))"
    using p o b(5,7,8,9) by (intro disjI2 exI conjI) simp_all
  from session_open_failure_is_fatal [OF b(1,2,3,4) ne this] b(5,6,7)
  have 2: "\<exists>s' tmp. run_step refusing_env ?b = Some s'
          \<and> wpc s' = W_Fatal (Open_failed tmp) \<and> encoded s' = []
          \<and> run_step refusing_env s' = None"
    by (metis (no_types, lifting) list.distinct(1))
  from a(5) ne 1 p o 2 show ?thesis by (intro conjI)
qed



end
